theory Spec2Isabelle
  imports Complex_Main "HOL-Library.Word"
begin

section \<open>The notch filter plugin: filter banks per data stream\<close>

text \<open>
  The development follows \<^verbatim>\<open>Source/BandstopFilter.cpp\<close>. The C++ types \<^verbatim>\<open>float\<close> and
  \<^verbatim>\<open>double\<close> are read as \<^typ>\<open>real\<close>: rounding and NaN are not part of the model. C++
  \<^verbatim>\<open>int\<close> is \<^typ>\<open>int\<close> (no arithmetic of the source can overflow: the only
  increments are loop counters below an \<^verbatim>\<open>int\<close> bound), a stream identifier
  (\<^verbatim>\<open>uint16\<close>) is a 16-bit word. A call that dereferences a null pointer or leaves an
  array is the value \<open>None\<close>.
\<close>

subsection \<open>The filter library, as far as the plugin uses it\<close>

text \<open>
  \<^verbatim>\<open>Dsp::Params\<close> is an array of doubles; the plugin writes the entries 0 to 3
  (sample rate, order, center frequency, bandwidth).
\<close>

type_synonym Params = "real list"

text \<open>
  A filter instance holds the parameters it was last given and a private state
  (coefficients, delay line, smoothing), whose type \<open>'h\<close> is left open.
\<close>

record 'h Filter =
  params :: Params
  hidden :: 'h

text \<open>
  The library is not part of the repository. What the plugin calls is taken as a
  parameter: the instance that \<^verbatim>\<open>new Dsp::SmoothedFilterDesign<...>(1)\<close> builds, the
  recomputation of the private state from new parameters, and the processing of one sample.
\<close>

record 'h Dsp =
  newFilter :: "'h Filter"
  design :: "Params \<Rightarrow> 'h \<Rightarrow> 'h"
  process1 :: "'h \<Rightarrow> real \<Rightarrow> 'h \<times> real"

text \<open>
  Modelled from the spec: \<^verbatim>\<open>Dsp::Filter::setParams\<close> is library code; the spec describes
  it as \<^verbatim>\<open>configure(order, sampleRate, centerFreq, bandwidth)\<close>. The instance keeps the
  parameters and rebuilds its private state from them.
\<close>

definition setParams :: "'h Dsp \<Rightarrow> Params \<Rightarrow> 'h Filter \<Rightarrow> 'h Filter" where
  "setParams L p f = \<lparr>params = p, hidden = design L p (hidden f)\<rparr>"

text \<open>
  \<^verbatim>\<open>filter->process(numSamples, &ptr)\<close> on a one-channel filter: the first
  \<^verbatim>\<open>numSamples\<close> samples are replaced in place, one after the other, and the private
  state moves along. Here the samples are the list given.
\<close>

fun processSamples :: "'h Dsp \<Rightarrow> 'h \<Rightarrow> real list \<Rightarrow> 'h \<times> real list" where
  "processSamples L h [] = (h, [])"
| "processSamples L h (x # xs) =
     (case process1 L h x of (h', y) \<Rightarrow>
        (case processSamples L h' xs of (h'', ys) \<Rightarrow> (h'', y # ys)))"

subsection \<open>BandstopFilterSettings: the filter bank of one stream\<close>

record 'h BandstopFilterSettings =
  sampleRate :: real
  filters :: "'h Filter list"

text \<open>The four entries that \<^verbatim>\<open>setFilterParameters\<close> writes into \<^verbatim>\<open>params\<close>.\<close>

definition filterParams :: "real \<Rightarrow> real \<Rightarrow> real \<Rightarrow> Params" where
  "filterParams sr lowCut highCut = [sr, 4, (highCut + lowCut) / 2, highCut - lowCut]"

text \<open>
  \<^verbatim>\<open>filters[channel]\<close> on a JUCE \<^verbatim>\<open>OwnedArray\<close> is a null pointer when the index is out
  of range, and \<^verbatim>\<open>->setParams\<close> on it is a crash: \<open>None\<close>.
\<close>

definition setFilterParameters ::
  "'h Dsp \<Rightarrow> real \<Rightarrow> real \<Rightarrow> int \<Rightarrow> 'h BandstopFilterSettings \<Rightarrow> 'h BandstopFilterSettings option" where
  "setFilterParameters L lowCut highCut channel s =
     (if 0 \<le> channel \<and> channel < int (length (filters s))
      then Some (s\<lparr>filters := (filters s)[nat channel :=
                   setParams L (filterParams (sampleRate s) lowCut highCut) (filters s ! nat channel)]\<rparr>)
      else None)"

text \<open>The loop \<^verbatim>\<open>for (int n = 0; n < filters.size(); n++)\<close> of \<^verbatim>\<open>updateFilters\<close>, from \<open>n\<close> on.\<close>

function updateFilters_loop ::
  "'h Dsp \<Rightarrow> real \<Rightarrow> real \<Rightarrow> int \<Rightarrow> 'h BandstopFilterSettings \<Rightarrow> 'h BandstopFilterSettings option" where
  "updateFilters_loop L lowCut highCut n s =
     (if n < int (length (filters s))
      then (case setFilterParameters L lowCut highCut n s of
              None \<Rightarrow> None
            | Some s' \<Rightarrow> updateFilters_loop L lowCut highCut (n + 1) s')
      else Some s)"
  by pat_completeness auto
termination
  by (relation "measure (\<lambda>(L, lowCut, highCut, n, s). nat (int (length (filters s)) - n))")
     (auto simp: setFilterParameters_def split: if_splits)

declare updateFilters_loop.simps [simp del]

definition updateFilters ::
  "'h Dsp \<Rightarrow> real \<Rightarrow> real \<Rightarrow> 'h BandstopFilterSettings \<Rightarrow> 'h BandstopFilterSettings option" where
  "updateFilters L lowCut highCut s = updateFilters_loop L lowCut highCut 0 s"

text \<open>The loop \<^verbatim>\<open>for (int n = 0; n < numChannels; ++n) filters.add(new ...)\<close>, from \<open>n\<close> on.\<close>

function createFilters_loop ::
  "'h Dsp \<Rightarrow> int \<Rightarrow> int \<Rightarrow> 'h BandstopFilterSettings \<Rightarrow> 'h BandstopFilterSettings" where
  "createFilters_loop L numChannels n s =
     (if n < numChannels
      then createFilters_loop L numChannels (n + 1) (s\<lparr>filters := filters s @ [newFilter L]\<rparr>)
      else s)"
  by pat_completeness auto
termination
  by (relation "measure (\<lambda>(L, numChannels, n, s). nat (numChannels - n))") auto

declare createFilters_loop.simps [simp del]

definition createFilters ::
  "'h Dsp \<Rightarrow> int \<Rightarrow> real \<Rightarrow> real \<Rightarrow> real \<Rightarrow> 'h BandstopFilterSettings \<Rightarrow> 'h BandstopFilterSettings option" where
  "createFilters L numChannels sampleRate\<^sub>0 lowCut highCut s =
     updateFilters L lowCut highCut
       (createFilters_loop L numChannels 0 (s\<lparr>sampleRate := sampleRate\<^sub>0, filters := []\<rparr>))"

subsection \<open>Streams and their parameters\<close>

text \<open>
  Modelled from the spec: the host's \<^verbatim>\<open>Parameter\<close> class is not part of the repository.
  A parameter holds its current value and the value it had before the last edit; an edit
  (\<open>setValue\<close>) stores the new value and remembers the old one, and
  \<^verbatim>\<open>restorePreviousValue\<close> puts the remembered value back.
\<close>

record Parameter =
  currentValue :: real
  previousValue :: real

text \<open>
  Modelled from the spec: the host's way of storing an edited value is not part of the
  repository. The value before the edit becomes the previous value.
\<close>

definition setValue :: "real \<Rightarrow> Parameter \<Rightarrow> Parameter" where
  "setValue v p = \<lparr>currentValue = v, previousValue = currentValue p\<rparr>"

text \<open>
  Modelled from the spec: \<^verbatim>\<open>Parameter::restorePreviousValue\<close> is host code; it restores the
  field to its previous value.
\<close>

definition restorePreviousValue :: "Parameter \<Rightarrow> Parameter" where
  "restorePreviousValue p = p\<lparr>currentValue := previousValue p\<rparr>"

text \<open>
  A data stream as the plugin reads it: \<^verbatim>\<open>getStreamId()\<close>, \<^verbatim>\<open>getChannelCount()\<close>,
  \<^verbatim>\<open>getSampleRate()\<close> and the stream-scoped parameters \<^verbatim>\<open>"enable_stream"\<close>,
  \<^verbatim>\<open>"Channels"\<close>, \<^verbatim>\<open>"low_cut"\<close> and \<^verbatim>\<open>"high_cut"\<close>.
\<close>

record DataStream =
  streamId :: "16 word"
  channelCount :: int
  streamSampleRate :: real
  enable_stream :: bool
  Channels :: "int list"
  low_cut :: Parameter
  high_cut :: Parameter

text \<open>
  What the host answers during \<^verbatim>\<open>process\<close>, taken as a parameter:
  \<^verbatim>\<open>getGlobalChannelIndex(streamId, localIndex)\<close> and \<^verbatim>\<open>getNumSamplesInBlock(streamId)\<close>.
\<close>

record Host =
  getGlobalChannelIndex :: "16 word \<Rightarrow> int \<Rightarrow> int"
  getNumSamplesInBlock :: "16 word \<Rightarrow> nat"

text \<open>
  The processor: the streams the host reports (\<^verbatim>\<open>getDataStreams()\<close>) and the member
  \<^verbatim>\<open>settings\<close>, one filter bank per stream identifier.
\<close>

record 'h BandstopFilter =
  dataStreams :: "DataStream list"
  settings :: "16 word \<rightharpoonup> 'h BandstopFilterSettings"

text \<open>\<^verbatim>\<open>getDataStream(id)\<close>: the stream with this identifier; a null pointer is \<open>None\<close>.\<close>

definition getDataStream :: "('h, 'z) BandstopFilter_scheme \<Rightarrow> 16 word \<Rightarrow> DataStream option" where
  "getDataStream P sid = find (\<lambda>st. streamId st = sid) (dataStreams P)"

text \<open>A write through the pointer that \<^verbatim>\<open>getDataStream(id)\<close> returns.\<close>

fun modifyStream :: "16 word \<Rightarrow> (DataStream \<Rightarrow> DataStream) \<Rightarrow> DataStream list \<Rightarrow> DataStream list" where
  "modifyStream sid g [] = []"
| "modifyStream sid g (st # rest) =
     (if streamId st = sid then g st # rest else st # modifyStream sid g rest)"

subsection \<open>Parameter changes\<close>

text \<open>JUCE's \<^verbatim>\<open>String::equalsIgnoreCase\<close>, on ASCII letters.\<close>

definition toLower :: "char \<Rightarrow> char" where
  "toLower c = (let n = (of_char c :: nat) in if 65 \<le> n \<and> n \<le> 90 then char_of (n + 32) else c)"

definition equalsIgnoreCase :: "string \<Rightarrow> string \<Rightarrow> bool" where
  "equalsIgnoreCase a b = (map toLower a = map toLower b)"

text \<open>The \<^verbatim>\<open>Parameter*\<close> handed to \<^verbatim>\<open>parameterValueChanged\<close>, as far as it is read.\<close>

record ParamRef =
  getStreamId :: "16 word"
  getName :: string

definition parameterValueChanged ::
  "'h Dsp \<Rightarrow> ParamRef \<Rightarrow> 'h BandstopFilter \<Rightarrow> 'h BandstopFilter option" where
  "parameterValueChanged L param P =
     (let currentStream = getStreamId param in
      if equalsIgnoreCase (getName param) ''low_cut'' then
        (case getDataStream P currentStream of
           None \<Rightarrow> None
         | Some st \<Rightarrow>
             if currentValue (low_cut st) \<ge> currentValue (high_cut st)
             then Some (P\<lparr>dataStreams := modifyStream currentStream
                          (\<lambda>st. st\<lparr>low_cut := restorePreviousValue (low_cut st)\<rparr>) (dataStreams P)\<rparr>)
             else (case settings P currentStream of
                     None \<Rightarrow> None
                   | Some b \<Rightarrow>
                       (case updateFilters L (currentValue (low_cut st)) (currentValue (high_cut st)) b of
                          None \<Rightarrow> None
                        | Some b' \<Rightarrow> Some (P\<lparr>settings := (settings P)(currentStream \<mapsto> b')\<rparr>))))
      else if equalsIgnoreCase (getName param) ''high_cut'' then
        (case getDataStream P currentStream of
           None \<Rightarrow> None
         | Some st \<Rightarrow>
             if currentValue (high_cut st) \<le> currentValue (low_cut st)
             then Some (P\<lparr>dataStreams := modifyStream currentStream
                          (\<lambda>st. st\<lparr>high_cut := restorePreviousValue (high_cut st)\<rparr>) (dataStreams P)\<rparr>)
             else (case settings P currentStream of
                     None \<Rightarrow> None
                   | Some b \<Rightarrow>
                       (case updateFilters L (currentValue (low_cut st)) (currentValue (high_cut st)) b of
                          None \<Rightarrow> None
                        | Some b' \<Rightarrow> Some (P\<lparr>settings := (settings P)(currentStream \<mapsto> b')\<rparr>))))
      else Some P)"

text \<open>
  Modelled from the spec: the host code that carries an edit of a cutoff to the plugin is
  not part of the repository. The spec's \<^verbatim>\<open>proposeCutoutChange(streamId, field, newValue)\<close>:
  the host stores the new value in the stream's parameter and calls
  \<^verbatim>\<open>parameterValueChanged\<close> with that parameter.
\<close>

datatype CutoffField = LowCut | HighCut

definition proposeCutoffChange ::
  "'h Dsp \<Rightarrow> 16 word \<Rightarrow> CutoffField \<Rightarrow> real \<Rightarrow> 'h BandstopFilter \<Rightarrow> 'h BandstopFilter option" where
  "proposeCutoffChange L sid field v P =
     (case field of
        LowCut \<Rightarrow>
          parameterValueChanged L \<lparr>getStreamId = sid, getName = ''low_cut''\<rparr>
            (P\<lparr>dataStreams := modifyStream sid (\<lambda>st. st\<lparr>low_cut := setValue v (low_cut st)\<rparr>) (dataStreams P)\<rparr>)
      | HighCut \<Rightarrow>
          parameterValueChanged L \<lparr>getStreamId = sid, getName = ''high_cut''\<rparr>
            (P\<lparr>dataStreams := modifyStream sid (\<lambda>st. st\<lparr>high_cut := setValue v (high_cut st)\<rparr>) (dataStreams P)\<rparr>))"





subsection \<open>Reconciliation\<close>

text \<open>
  Modelled from the spec: \<^verbatim>\<open>StreamSettings::update\<close> is host code. Banks of streams that
  are gone are dropped, a stream seen for the first time gets a default-constructed bank
  \<open>fresh\<close>, the other banks stay.
\<close>

definition StreamSettings_update ::
  "'h BandstopFilterSettings \<Rightarrow> DataStream list \<Rightarrow> (16 word \<rightharpoonup> 'h BandstopFilterSettings)
     \<Rightarrow> (16 word \<rightharpoonup> 'h BandstopFilterSettings)" where
  "StreamSettings_update fresh streams m =
     (\<lambda>sid. if sid \<in> set (map streamId streams)
            then (case m sid of None \<Rightarrow> Some fresh | Some b \<Rightarrow> Some b)
            else None)"

text \<open>The loop \<^verbatim>\<open>for (auto stream : getDataStreams())\<close> of \<^verbatim>\<open>updateSettings\<close>.\<close>

fun updateSettings_loop ::
  "'h Dsp \<Rightarrow> DataStream list \<Rightarrow> (16 word \<rightharpoonup> 'h BandstopFilterSettings)
     \<Rightarrow> (16 word \<rightharpoonup> 'h BandstopFilterSettings) option" where
  "updateSettings_loop L [] m = Some m"
| "updateSettings_loop L (stream # rest) m =
     (case m (streamId stream) of
        None \<Rightarrow> None
      | Some b \<Rightarrow>
          (case createFilters L (channelCount stream) (streamSampleRate stream)
                  (currentValue (low_cut stream)) (currentValue (high_cut stream)) b of
             None \<Rightarrow> None
           | Some b' \<Rightarrow> updateSettings_loop L rest (m(streamId stream \<mapsto> b'))))"

definition updateSettings ::
  "'h Dsp \<Rightarrow> 'h BandstopFilterSettings \<Rightarrow> 'h BandstopFilter \<Rightarrow> 'h BandstopFilter option" where
  "updateSettings L fresh P =
     (case updateSettings_loop L (dataStreams P) (StreamSettings_update fresh (dataStreams P) (settings P)) of
        None \<Rightarrow> None
      | Some m \<Rightarrow> Some (P\<lparr>settings := m\<rparr>))"

subsection \<open>Processing a block\<close>

text \<open>
  The buffer is a list of channels, each a list of samples.
  \<^verbatim>\<open>buffer.getWritePointer(g)\<close> outside the buffer is \<open>None\<close>.
\<close>

type_synonym AudioBuffer = "real list list"

definition getWritePointer :: "AudioBuffer \<Rightarrow> int \<Rightarrow> real list option" where
  "getWritePointer buffer g =
     (if 0 \<le> g \<and> g < int (length buffer) then Some (buffer ! nat g) else None)"

text \<open>
  The body of the loop over the selected channels. The filter of the local index is run
  over the first \<^verbatim>\<open>numSamples\<close> samples of the global channel; a missing filter or a
  channel shorter than \<^verbatim>\<open>numSamples\<close> is \<open>None\<close>.
\<close>

definition processChannel ::
  "'h Dsp \<Rightarrow> Host \<Rightarrow> 16 word \<Rightarrow> nat \<Rightarrow> AudioBuffer \<times> 'h BandstopFilterSettings \<Rightarrow> int
     \<Rightarrow> (AudioBuffer \<times> 'h BandstopFilterSettings) option" where
  "processChannel L H sid numSamples bs localChannelIndex =
     (case bs of (buffer, streamSettings) \<Rightarrow>
       (let globalChannelIndex = getGlobalChannelIndex H sid localChannelIndex in
        case getWritePointer buffer globalChannelIndex of
          None \<Rightarrow> None
        | Some ptr \<Rightarrow>
            if 0 \<le> localChannelIndex \<and> localChannelIndex < int (length (filters streamSettings))
               \<and> numSamples \<le> length ptr
            then (let f = filters streamSettings ! nat localChannelIndex in
                  case processSamples L (hidden f) (take numSamples ptr) of
                    (h', ys) \<Rightarrow>
                      Some (buffer[nat globalChannelIndex := ys @ drop numSamples ptr],
                            streamSettings\<lparr>filters := (filters streamSettings)
                               [nat localChannelIndex := f\<lparr>hidden := h'\<rparr>]\<rparr>))
            else None))"

fun processChannels ::
  "'h Dsp \<Rightarrow> Host \<Rightarrow> 16 word \<Rightarrow> nat \<Rightarrow> int list \<Rightarrow> AudioBuffer \<times> 'h BandstopFilterSettings
     \<Rightarrow> (AudioBuffer \<times> 'h BandstopFilterSettings) option" where
  "processChannels L H sid numSamples [] bs = Some bs"
| "processChannels L H sid numSamples (c # cs) bs =
     (case processChannel L H sid numSamples bs c of
        None \<Rightarrow> None
      | Some bs' \<Rightarrow> processChannels L H sid numSamples cs bs')"

text \<open>
  The loop \<^verbatim>\<open>for (auto stream : getDataStreams())\<close> of \<^verbatim>\<open>process\<close>. A disabled stream
  is skipped; for an enabled stream without a bank, \<^verbatim>\<open>settings[id]\<close> is no valid pointer:
  \<open>None\<close>.
\<close>

fun process_loop ::
  "'h Dsp \<Rightarrow> Host \<Rightarrow> DataStream list \<Rightarrow> AudioBuffer \<times> (16 word \<rightharpoonup> 'h BandstopFilterSettings)
     \<Rightarrow> (AudioBuffer \<times> (16 word \<rightharpoonup> 'h BandstopFilterSettings)) option" where
  "process_loop L H [] bm = Some bm"
| "process_loop L H (stream # rest) bm =
     (case bm of (buffer, m) \<Rightarrow>
        if enable_stream stream
        then (case m (streamId stream) of
                None \<Rightarrow> None
              | Some streamSettings \<Rightarrow>
                  (case processChannels L H (streamId stream)
                          (getNumSamplesInBlock H (streamId stream)) (Channels stream)
                          (buffer, streamSettings) of
                     None \<Rightarrow> None
                   | Some (buffer', streamSettings') \<Rightarrow>
                       process_loop L H rest (buffer', m(streamId stream \<mapsto> streamSettings'))))
        else process_loop L H rest (buffer, m))"

definition process ::
  "'h Dsp \<Rightarrow> Host \<Rightarrow> AudioBuffer \<Rightarrow> 'h BandstopFilter \<Rightarrow> (AudioBuffer \<times> 'h BandstopFilter) option" where
  "process L H buffer P =
     (case process_loop L H (dataStreams P) (buffer, settings P) of
        None \<Rightarrow> None
      | Some (buffer', m) \<Rightarrow> Some (buffer', P\<lparr>settings := m\<rparr>))"

text \<open>
  The buffer channels of a stream: the global indices of its local channels
  \<open>0, \<dots>, channelCount - 1\<close>. The host's channel map is well formed when no buffer channel
  belongs to two local channels, of one stream or of two, and a selection is well formed
  when it names local channels of its stream only.
\<close>

definition streamChannels :: "Host \<Rightarrow> DataStream \<Rightarrow> int list" where
  "streamChannels H st =
     map (\<lambda>k. getGlobalChannelIndex H (streamId st) (int k)) [0 ..< nat (channelCount st)]"

definition channelMapOk :: "Host \<Rightarrow> DataStream list \<Rightarrow> bool" where
  "channelMapOk H streams = distinct (concat (map (streamChannels H) streams))"

definition selectionOk :: "DataStream \<Rightarrow> bool" where
  "selectionOk st = list_all (\<lambda>c. 0 \<le> c \<and> c < channelCount st) (Channels st)"

subsection \<open>A small library instance for concrete runs\<close>

text \<open>A one-sample delay: the private state is the previous input.\<close>

definition delayDsp :: "real Dsp" where
  "delayDsp = \<lparr>newFilter = \<lparr>params = [], hidden = 0\<rparr>,
               design = (\<lambda>p h. h),
               process1 = (\<lambda>h x. (x, h))\<rparr>"


text \<open>
  Two streams at 30000 Hz with the default cutoffs 59 and 61: stream 1 is enabled, has two
  channels and selects the first; stream 2 is disabled and has one channel. The host maps
  the channels of stream 1 to the buffer channels 0 and 1 and the channel of stream 2 to
  buffer channel 2, and a block has two samples. \<open>regrown\<close> is stream 1 after its
  channel count went from 4 to 6, with the bank of four instances still in place.
\<close>

definition tunedBank :: "nat \<Rightarrow> real BandstopFilterSettings" where
  "tunedBank n = \<lparr>sampleRate = 30000,
                  filters = replicate n \<lparr>params = [30000, 4, 60, 2], hidden = 0\<rparr>\<rparr>"

definition streamA :: DataStream where
  "streamA = \<lparr>streamId = 1, channelCount = 2, streamSampleRate = 30000, enable_stream = True,
              Channels = [0],
              low_cut = \<lparr>currentValue = 59, previousValue = 59\<rparr>,
              high_cut = \<lparr>currentValue = 61, previousValue = 61\<rparr>\<rparr>"

definition streamB :: DataStream where
  "streamB = \<lparr>streamId = 2, channelCount = 1, streamSampleRate = 30000, enable_stream = False,
              Channels = [0],
              low_cut = \<lparr>currentValue = 59, previousValue = 59\<rparr>,
              high_cut = \<lparr>currentValue = 61, previousValue = 61\<rparr>\<rparr>"

definition twoStreams :: "real BandstopFilter" where
  "twoStreams = \<lparr>dataStreams = [streamA, streamB],
                 settings = [1 \<mapsto> tunedBank 2, 2 \<mapsto> tunedBank 1]\<rparr>"

definition blockHost :: Host where
  "blockHost = \<lparr>getGlobalChannelIndex = (\<lambda>sid c. if sid = 1 then c else 2 + c),
                getNumSamplesInBlock = (\<lambda>sid. 2)\<rparr>"

definition block :: AudioBuffer where
  "block = [[1, 2, 3], [4, 5, 6], [7, 8, 9]]"

definition regrown :: "real BandstopFilter" where
  "regrown = \<lparr>dataStreams = [streamA\<lparr>channelCount := 6\<rparr>],
              settings = [1 \<mapsto> tunedBank 4]\<rparr>"





section \<open>Properties of the filter bank\<close>

lemma updateFilters_loop_eq:
  "0 \<le> n \<Longrightarrow>
   updateFilters_loop L lowCut highCut n s =
     Some (s\<lparr>filters := take (nat n) (filters s) @
              map (setParams L (filterParams (sampleRate s) lowCut highCut)) (drop (nat n) (filters s))\<rparr>)"
proof (induction L lowCut highCut n s rule: updateFilters_loop.induct)
  case (1 L lowCut highCut n s)
  show ?case
  proof (cases "n < int (length (filters s))")
    case False
    then show ?thesis
      by (simp add: updateFilters_loop.simps [of L lowCut highCut n s])
  next
    case True
    let ?p = "filterParams (sampleRate s) lowCut highCut"
    let ?s' = "s\<lparr>filters := (filters s)[nat n := setParams L ?p (filters s ! nat n)]\<rparr>"
    from True "1.prems" have step: "setFilterParameters L lowCut highCut n s = Some ?s'"
      by (simp add: setFilterParameters_def)
    from True "1.prems" have lt: "nat n < length (filters s)" by linarith
    have suc: "nat (n + 1) = Suc (nat n)" using "1.prems" by simp
    have ih: "updateFilters_loop L lowCut highCut (n + 1) ?s' =
        Some (?s'\<lparr>filters := take (nat (n + 1)) (filters ?s') @
              map (setParams L (filterParams (sampleRate ?s') lowCut highCut))
                (drop (nat (n + 1)) (filters ?s'))\<rparr>)"
      using "1.IH" [OF True step] "1.prems" by simp
    have "take (Suc (nat n)) ((filters s)[nat n := setParams L ?p (filters s ! nat n)])
            = take (nat n) (filters s) @ [setParams L ?p (filters s ! nat n)]"
      using lt by (simp add: take_Suc_conv_app_nth)
    moreover have "drop (nat n) (filters s) = filters s ! nat n # drop (Suc (nat n)) (filters s)"
      using lt by (simp add: Cons_nth_drop_Suc)
    ultimately show ?thesis
      using True step ih suc
      by (simp add: updateFilters_loop.simps [of L lowCut highCut n s])
  qed
qed

lemma updateFilters_eq:
  "updateFilters L lowCut highCut s =
     Some (s\<lparr>filters := map (setParams L (filterParams (sampleRate s) lowCut highCut)) (filters s)\<rparr>)"
  by (simp add: updateFilters_def updateFilters_loop_eq)

lemma createFilters_loop_eq:
  "createFilters_loop L numChannels n s =
     s\<lparr>filters := filters s @ replicate (nat (numChannels - n)) (newFilter L)\<rparr>"
proof (induction L numChannels n s rule: createFilters_loop.induct)
  case (1 L numChannels n s)
  show ?case
  proof (cases "n < numChannels")
    case False
    then show ?thesis
      by (simp add: createFilters_loop.simps [of L numChannels n s])
  next
    case True
    then have "nat (numChannels - n) = Suc (nat (numChannels - (n + 1)))" by simp
    then show ?thesis
      using True "1.IH" [OF True]
      by (simp add: createFilters_loop.simps [of L numChannels n s] replicate_app_Cons_same)
  qed
qed

lemma createFilters_eq:
  "createFilters L numChannels sr lowCut highCut s =
     Some (s\<lparr>sampleRate := sr,
             filters := replicate (nat numChannels)
                          (setParams L (filterParams sr lowCut highCut) (newFilter L))\<rparr>)"
  by (simp add: createFilters_def createFilters_loop_eq updateFilters_eq)

subsection \<open>Creating a bank\<close>

text \<open>
  Claim C1. For a positive channel count \<open>numChannels\<close>, a positive sample rate \<open>sr\<close> and
  cutoffs \<open>lowCut < highCut\<close> in the valid range 0.1 to 15000 with \<open>highCut\<close> below
  Nyquist, \<^verbatim>\<open>createFilters(numChannels, sr, lowCut, highCut)\<close> returns, and afterwards the
  bank holds exactly \<open>numChannels\<close> instances, each configured with sample rate \<open>sr\<close>,
  order 4, center frequency \<open>(lowCut + highCut) / 2\<close> and bandwidth \<open>highCut - lowCut\<close>.
\<close>

theorem createFilters_configures:
  assumes "0 < numChannels" and "0 < sr" and "lowCut < highCut"
    and "1 / 10 \<le> lowCut" and "highCut \<le> 15000" and "highCut < sr / 2"
  shows "\<exists>s'. createFilters L numChannels sr lowCut highCut s = Some s' \<and>
              int (length (filters s')) = numChannels \<and>
              sampleRate s' = sr \<and>
              map params (filters s') =
                replicate (nat numChannels) [sr, 4, (lowCut + highCut) / 2, highCut - lowCut]"
  using assms(1)
  by (simp add: createFilters_eq setParams_def filterParams_def add.commute)

text \<open>
  The spec's first scenario: four channels at 30000 Hz with cutoffs 59 and 61 give four
  instances of order 4 with center 60 and bandwidth 2.
\<close>

theorem createFilters_configures_witness:
  "(0::int) < 4 \<and> (0::real) < 30000 \<and> (59::real) < 61 \<and> (1::real) / 10 \<le> 59 \<and> (61::real) \<le> 15000
   \<and> (61::real) < 30000 / 2 \<and>
   (\<exists>s'. createFilters delayDsp 4 30000 59 61 \<lparr>sampleRate = 0, filters = []\<rparr> = Some s' \<and>
         int (length (filters s')) = 4 \<and> sampleRate s' = 30000 \<and>
         map params (filters s') =
           [[30000, 4, 60, 2], [30000, 4, 60, 2], [30000, 4, 60, 2], [30000, 4, 60, 2]])"
  using createFilters_configures [of 4 30000 59 61 delayDsp "\<lparr>sampleRate = 0, filters = []\<rparr>"]
  by (simp add: numeral_eq_Suc)

text \<open>
  Claim C4, as stated, asks that a call of \<^verbatim>\<open>createFilters\<close> with a violated precondition
  surfaces a failure. The code checks nothing: with a channel count of 0 the call returns
  normally and leaves a bank without instances.
\<close>

theorem createFilters_unchecked_counterexample:
  "createFilters delayDsp 0 30000 59 61
       \<lparr>sampleRate = 44100, filters = [\<lparr>params = [], hidden = 0\<rparr>]\<rparr>
     = Some \<lparr>sampleRate = 30000, filters = []\<rparr>"
  by (simp add: createFilters_eq)

text \<open>
  Claim C4, amended. \<^verbatim>\<open>createFilters\<close> checks none of its arguments and returns for every
  channel count, sample rate and cutoff pair: the bank then stores the sample rate given and
  holds \<open>max numChannels 0\<close> instances, each with the parameters computed from the
  arguments as they are.
\<close>

theorem createFilters_never_fails:
  "\<exists>s'. createFilters L numChannels sr lowCut highCut s = Some s' \<and>
        sampleRate s' = sr \<and>
        int (length (filters s')) = max numChannels 0 \<and>
        map params (filters s') = replicate (nat numChannels) (filterParams sr lowCut highCut)"
  by (simp add: createFilters_eq setParams_def)

subsection \<open>Retuning a bank\<close>

text \<open>
  Claim C8. \<^verbatim>\<open>updateFilters\<close> is idempotent on the configuration: for every bank and every
  cutoff pair, a second call with the same cutoffs leaves the parameters (sample rate, order,
  center frequency, bandwidth) of every instance as the first call set them.
\<close>

theorem updateFilters_idempotent:
  "\<exists>s1 s2. updateFilters L lowCut highCut s = Some s1 \<and>
           updateFilters L lowCut highCut s1 = Some s2 \<and>
           map params (filters s2) = map params (filters s1)"
  by (simp add: updateFilters_eq setParams_def)

text \<open>
  Claim C10. \<^verbatim>\<open>updateFilters\<close> keeps the number of instances and the sample rate stored in
  the bank, for every bank and every cutoff pair; on a bank without instances it changes
  nothing at all.
\<close>

theorem updateFilters_frame:
  "(\<exists>s'. updateFilters L lowCut highCut s = Some s' \<and>
         length (filters s') = length (filters s) \<and> sampleRate s' = sampleRate s) \<and>
   updateFilters L lowCut highCut (s\<lparr>filters := []\<rparr>) = Some (s\<lparr>filters := []\<rparr>)"
  by (simp add: updateFilters_eq)

section \<open>Properties of the parameter change protocol\<close>

lemma low_cut_name [simp]: "equalsIgnoreCase ''low_cut'' ''low_cut''"
  by (simp add: equalsIgnoreCase_def)

lemma high_cut_name [simp]: "equalsIgnoreCase ''high_cut'' ''high_cut''"
  by (simp add: equalsIgnoreCase_def)

lemma high_cut_not_low_cut [simp]: "\<not> equalsIgnoreCase ''high_cut'' ''low_cut''"
  by code_simp

lemma find_modifyStream_same:
  "find (\<lambda>st. streamId st = sid) xs = Some st \<Longrightarrow> streamId (g st) = sid \<Longrightarrow>
   find (\<lambda>st. streamId st = sid) (modifyStream sid g xs) = Some (g st)"
  by (induction xs) (auto split: if_splits)

lemma getDataStream_modify:
  "getDataStream P sid = Some st \<Longrightarrow> streamId (g st) = sid \<Longrightarrow>
   getDataStream (P\<lparr>dataStreams := modifyStream sid g (dataStreams P)\<rparr>) sid = Some (g st)"
  by (simp add: getDataStream_def find_modifyStream_same)

lemma getDataStream_streamId: "getDataStream P sid = Some st \<Longrightarrow> streamId st = sid"
  by (auto simp: getDataStream_def find_Some_iff)

lemma getDataStream_modify2:
  assumes "getDataStream P sid = Some st" and "\<And>x. streamId (g x) = streamId x"
    and "\<And>x. streamId (k x) = streamId x"
  shows "getDataStream (P\<lparr>dataStreams := modifyStream sid k (modifyStream sid g (dataStreams P))\<rparr>) sid
           = Some (k (g st))"
proof -
  have sid: "streamId st = sid" using assms(1) by (rule getDataStream_streamId)
  have "find (\<lambda>st. streamId st = sid) (modifyStream sid g (dataStreams P)) = Some (g st)"
    using assms(1) sid by (intro find_modifyStream_same) (simp_all add: getDataStream_def assms(2))
  then have "find (\<lambda>st. streamId st = sid)
      (modifyStream sid k (modifyStream sid g (dataStreams P))) = Some (k (g st))"
    using sid find_modifyStream_same [of sid "modifyStream sid g (dataStreams P)" "g st" k]
    by (simp add: assms(2,3))
  then show ?thesis by (simp add: getDataStream_def)
qed

text \<open>
  What an edit of the low cutoff, and of the high cutoff, does to the processor: the edit is
  rejected and undone, or the bank of the stream is retuned.
\<close>

lemma propose_low:
  assumes "getDataStream P sid = Some st"
  shows "proposeCutoffChange L sid LowCut v P =
     (if v \<ge> currentValue (high_cut st)
      then Some (P\<lparr>dataStreams := modifyStream sid
                   (\<lambda>st. st\<lparr>low_cut := restorePreviousValue (low_cut st)\<rparr>)
                   (modifyStream sid (\<lambda>st. st\<lparr>low_cut := setValue v (low_cut st)\<rparr>) (dataStreams P))\<rparr>)
      else (case settings P sid of
              None \<Rightarrow> None
            | Some b \<Rightarrow>
                (case updateFilters L v (currentValue (high_cut st)) b of
                   None \<Rightarrow> None
                 | Some b' \<Rightarrow>
                     Some (P\<lparr>dataStreams := modifyStream sid
                              (\<lambda>st. st\<lparr>low_cut := setValue v (low_cut st)\<rparr>) (dataStreams P),
                            settings := (settings P)(sid \<mapsto> b')\<rparr>))))"
proof -
  have sid: "streamId st = sid" using assms by (rule getDataStream_streamId)
  let ?g = "\<lambda>st. st\<lparr>low_cut := setValue v (low_cut st)\<rparr>"
  have "getDataStream (P\<lparr>dataStreams := modifyStream sid ?g (dataStreams P)\<rparr>) sid = Some (?g st)"
    using assms sid by (intro getDataStream_modify) simp_all
  then show ?thesis
    by (simp add: proposeCutoffChange_def parameterValueChanged_def setValue_def
        split: option.splits)
qed

lemma propose_high:
  assumes "getDataStream P sid = Some st"
  shows "proposeCutoffChange L sid HighCut v P =
     (if v \<le> currentValue (low_cut st)
      then Some (P\<lparr>dataStreams := modifyStream sid
                   (\<lambda>st. st\<lparr>high_cut := restorePreviousValue (high_cut st)\<rparr>)
                   (modifyStream sid (\<lambda>st. st\<lparr>high_cut := setValue v (high_cut st)\<rparr>) (dataStreams P))\<rparr>)
      else (case settings P sid of
              None \<Rightarrow> None
            | Some b \<Rightarrow>
                (case updateFilters L (currentValue (low_cut st)) v b of
                   None \<Rightarrow> None
                 | Some b' \<Rightarrow>
                     Some (P\<lparr>dataStreams := modifyStream sid
                              (\<lambda>st. st\<lparr>high_cut := setValue v (high_cut st)\<rparr>) (dataStreams P),
                            settings := (settings P)(sid \<mapsto> b')\<rparr>))))"
proof -
  have sid: "streamId st = sid" using assms by (rule getDataStream_streamId)
  let ?g = "\<lambda>st. st\<lparr>high_cut := setValue v (high_cut st)\<rparr>"
  have "getDataStream (P\<lparr>dataStreams := modifyStream sid ?g (dataStreams P)\<rparr>) sid = Some (?g st)"
    using assms sid by (intro getDataStream_modify) simp_all
  then show ?thesis
    by (simp add: proposeCutoffChange_def parameterValueChanged_def setValue_def
        split: option.splits)
qed


text \<open>
  Claim C2. An edit that violates the ordering (a new low cutoff at or above the current high
  cutoff, or a new high cutoff at or below the current low cutoff) is rejected: the edited
  field has its previous value again, the other cutoff is as it was, and no filter bank of
  the processor has changed in any way.
\<close>

theorem rejected_edit_reverts:
  assumes "getDataStream P sid = Some st"
    and "(field = LowCut \<and> v \<ge> currentValue (high_cut st)) \<or>
         (field = HighCut \<and> v \<le> currentValue (low_cut st))"
  shows "\<exists>P' st'. proposeCutoffChange L sid field v P = Some P' \<and>
           settings P' = settings P \<and>
           getDataStream P' sid = Some st' \<and>
           currentValue (low_cut st') = currentValue (low_cut st) \<and>
           currentValue (high_cut st') = currentValue (high_cut st)"
proof (cases field)
  case LowCut
  let ?k = "\<lambda>st. st\<lparr>low_cut := restorePreviousValue (low_cut st)\<rparr>"
  let ?g = "\<lambda>st. st\<lparr>low_cut := setValue v (low_cut st)\<rparr>"
  have "getDataStream (P\<lparr>dataStreams := modifyStream sid ?k (modifyStream sid ?g (dataStreams P))\<rparr>) sid
          = Some (?k (?g st))"
    using assms(1) by (rule getDataStream_modify2) simp_all
  then show ?thesis
    using LowCut assms
    by (simp add: propose_low [OF assms(1)] restorePreviousValue_def setValue_def)
next
  case HighCut
  let ?k = "\<lambda>st. st\<lparr>high_cut := restorePreviousValue (high_cut st)\<rparr>"
  let ?g = "\<lambda>st. st\<lparr>high_cut := setValue v (high_cut st)\<rparr>"
  have "getDataStream (P\<lparr>dataStreams := modifyStream sid ?k (modifyStream sid ?g (dataStreams P))\<rparr>) sid
          = Some (?k (?g st))"
    using assms(1) by (rule getDataStream_modify2) simp_all
  then show ?thesis
    using HighCut assms
    by (simp add: propose_high [OF assms(1)] restorePreviousValue_def setValue_def)
qed

text \<open>
  The spec's third scenario: a low cutoff of 70 proposed against a high cutoff of 61.
\<close>

theorem rejected_edit_reverts_witness:
  "getDataStream twoStreams 1 = Some streamA \<and>
   (70::real) \<ge> currentValue (high_cut streamA) \<and>
   (\<exists>P' st'. proposeCutoffChange delayDsp 1 LowCut 70 twoStreams = Some P' \<and>
      settings P' = settings twoStreams \<and>
      getDataStream P' 1 = Some st' \<and>
      currentValue (low_cut st') = 59 \<and> currentValue (high_cut st') = 61)"
proof -
  have h1: "getDataStream twoStreams 1 = Some streamA"
    by (simp add: getDataStream_def twoStreams_def streamA_def)
  have h2: "(LowCut = LowCut \<and> (70::real) \<ge> currentValue (high_cut streamA)) \<or>
         (LowCut = HighCut \<and> (70::real) \<le> currentValue (low_cut streamA))"
    by (simp add: streamA_def)
  show ?thesis
    using h1 rejected_edit_reverts [OF h1 h2, of delayDsp]
    by (simp add: streamA_def)
qed




text \<open>
  Claim C9. Handling a change of a parameter of stream A, accepted or rejected, leaves the
  bank of every other stream B as it was, with every instance in it.
\<close>

theorem other_streams_untouched:
  assumes "parameterValueChanged L param P = Some P'" and "B \<noteq> getStreamId param"
  shows "settings P' B = settings P B"
  using assms
  by (auto simp: parameterValueChanged_def Let_def split: if_splits option.splits)

theorem other_streams_untouched_witness:
  "\<exists>P'. parameterValueChanged delayDsp \<lparr>getStreamId = 1, getName = ''low_cut''\<rparr> twoStreams = Some P' \<and>
        (2 :: 16 word) \<noteq> getStreamId \<lparr>getStreamId = 1, getName = ''low_cut''\<rparr> \<and>
        settings P' 1 \<noteq> None \<and>
        settings P' 2 = settings twoStreams 2"
proof -
  let ?prm = "\<lparr>getStreamId = 1, getName = ''low_cut''\<rparr>"
  have "\<exists>P'. parameterValueChanged delayDsp ?prm twoStreams = Some P'"
    by (simp add: parameterValueChanged_def getDataStream_def twoStreams_def streamA_def
        updateFilters_eq)
  then obtain P' where h1: "parameterValueChanged delayDsp ?prm twoStreams = Some P'" ..
  have h2: "(2 :: 16 word) \<noteq> getStreamId ?prm" by simp
  have "settings P' 1 \<noteq> None"
    using h1
    by (auto simp add: parameterValueChanged_def getDataStream_def twoStreams_def streamA_def
        updateFilters_eq)
  then show ?thesis
    using h1 h2 other_streams_untouched [OF h1 h2] by simp
qed

section \<open>Properties of reconciliation\<close>

lemma updateSettings_loop_other:
  "updateSettings_loop L streams m = Some m' \<Longrightarrow> sid \<notin> streamId ` set streams \<Longrightarrow> m' sid = m sid"
  by (induction streams arbitrary: m) (auto split: option.splits)

lemma updateSettings_loop_each:
  assumes "distinct (map streamId streams)" and "\<forall>st \<in> set streams. m (streamId st) \<noteq> None"
  shows "\<exists>m'. updateSettings_loop L streams m = Some m' \<and>
           (\<forall>st \<in> set streams. \<exists>b. m (streamId st) = Some b \<and>
              m' (streamId st) = createFilters L (channelCount st) (streamSampleRate st)
                 (currentValue (low_cut st)) (currentValue (high_cut st)) b)"
  using assms
proof (induction streams arbitrary: m)
  case Nil
  then show ?case by simp
next
  case (Cons stream rest)
  from Cons.prems obtain b where b: "m (streamId stream) = Some b" by auto
  let ?c = "createFilters L (channelCount stream) (streamSampleRate stream)
                 (currentValue (low_cut stream)) (currentValue (high_cut stream)) b"
  obtain b' where b': "?c = Some b'" by (simp add: createFilters_eq)
  let ?m = "m(streamId stream \<mapsto> b')"
  have notin: "streamId stream \<notin> streamId ` set rest" using Cons.prems(1) by auto
  have "distinct (map streamId rest)" using Cons.prems(1) by simp
  moreover have "\<forall>st \<in> set rest. ?m (streamId st) \<noteq> None" using Cons.prems(2) by simp
  ultimately obtain m' where m': "updateSettings_loop L rest ?m = Some m'"
    and each: "\<forall>st \<in> set rest. \<exists>b. ?m (streamId st) = Some b \<and>
              m' (streamId st) = createFilters L (channelCount st) (streamSampleRate st)
                 (currentValue (low_cut st)) (currentValue (high_cut st)) b"
    using Cons.IH [of ?m] by blast
  have loop: "updateSettings_loop L (stream # rest) m = Some m'"
    using b b' m' by simp
  have first: "m' (streamId stream) = ?c"
    using updateSettings_loop_other [OF m' notin] b' by simp
  have others: "\<exists>b. m (streamId st) = Some b \<and>
              m' (streamId st) = createFilters L (channelCount st) (streamSampleRate st)
                 (currentValue (low_cut st)) (currentValue (high_cut st)) b"
    if "st \<in> set rest" for st
  proof -
    from that have "streamId st \<in> streamId ` set rest" by (rule imageI)
    with notin have "streamId st \<noteq> streamId stream" by metis
    with each that show ?thesis by (auto split: if_splits)
  qed
  show ?case using loop b first others by auto
qed

text \<open>
  Claim C5. A reconciliation pass returns and, for every stream the host reports (stream
  identifiers being unique), has called \<^verbatim>\<open>createFilters\<close> on the bank of the stream with the
  stream's channel count, sample rate and current cutoffs: whatever the bank held before,
  it now stores the stream's sample rate and holds exactly as many instances as the stream
  has channels, each one a new instance configured from the stream's values.
\<close>

theorem updateSettings_rebuilds:
  assumes "distinct (map streamId (dataStreams P))" and "st \<in> set (dataStreams P)"
  shows "\<exists>P' b b'. updateSettings L fresh P = Some P' \<and>
           StreamSettings_update fresh (dataStreams P) (settings P) (streamId st) = Some b \<and>
           createFilters L (channelCount st) (streamSampleRate st)
              (currentValue (low_cut st)) (currentValue (high_cut st)) b = Some b' \<and>
           settings P' (streamId st) = Some b' \<and>
           sampleRate b' = streamSampleRate st \<and>
           length (filters b') = nat (channelCount st) \<and>
           list_all (\<lambda>f. f = setParams L (filterParams (streamSampleRate st)
                (currentValue (low_cut st)) (currentValue (high_cut st))) (newFilter L)) (filters b')"
proof -
  let ?m = "StreamSettings_update fresh (dataStreams P) (settings P)"
  have "\<forall>st \<in> set (dataStreams P). ?m (streamId st) \<noteq> None"
    by (auto simp: StreamSettings_update_def split: option.splits)
  with assms(1) obtain m' where m': "updateSettings_loop L (dataStreams P) ?m = Some m'"
    and each: "\<forall>st \<in> set (dataStreams P). \<exists>b. ?m (streamId st) = Some b \<and>
              m' (streamId st) = createFilters L (channelCount st) (streamSampleRate st)
                 (currentValue (low_cut st)) (currentValue (high_cut st)) b"
    using updateSettings_loop_each [of "dataStreams P" ?m L] by blast
  from each assms(2) obtain b where b: "?m (streamId st) = Some b"
    and c: "m' (streamId st) = createFilters L (channelCount st) (streamSampleRate st)
                 (currentValue (low_cut st)) (currentValue (high_cut st)) b"
    by blast
  show ?thesis
    using m' b c
    by (simp add: updateSettings_def createFilters_eq list_all_iff)
qed

text \<open>
  The spec's fourth scenario: the channel count went from 4 to 6, and the bank of four
  instances is replaced by one of six new ones.
\<close>

theorem updateSettings_rebuilds_witness:
  "distinct (map streamId (dataStreams regrown)) \<and>
   streamA\<lparr>channelCount := 6\<rparr> \<in> set (dataStreams regrown) \<and>
   length (filters (tunedBank 4)) = 4 \<and>
   (\<exists>P' b'. updateSettings delayDsp (tunedBank 0) regrown = Some P' \<and>
      settings P' 1 = Some b' \<and> sampleRate b' = 30000 \<and> length (filters b') = 6 \<and>
      list_all (\<lambda>f. f = \<lparr>params = [30000, 4, 60, 2], hidden = 0\<rparr>) (filters b'))"
proof -
  have h1: "distinct (map streamId (dataStreams regrown))"
    by (simp add: regrown_def)
  have h2: "streamA\<lparr>channelCount := 6\<rparr> \<in> set (dataStreams regrown)"
    by (simp add: regrown_def)
  show ?thesis
    using h1 h2 updateSettings_rebuilds [OF h1 h2, of delayDsp "tunedBank 0"]
    by (auto simp: streamA_def tunedBank_def setParams_def filterParams_def delayDsp_def)
qed

section \<open>Properties of block processing\<close>

text \<open>One selected channel is filtered in place: every other buffer channel stays.\<close>

lemma processChannel_frame:
  assumes "processChannel L H sid n (buffer, b) c = Some (buffer', b')"
    and "g \<noteq> getGlobalChannelIndex H sid c"
  shows "getWritePointer buffer' g = getWritePointer buffer g"
proof -
  let ?g0 = "getGlobalChannelIndex H sid c"
  from assms(1) obtain ptr where ptr: "getWritePointer buffer ?g0 = Some ptr"
    by (auto simp: processChannel_def Let_def split: option.splits)
  then have g0: "0 \<le> ?g0" by (simp add: getWritePointer_def split: if_splits)
  from assms(1) ptr obtain ys where buf: "buffer' = buffer[nat ?g0 := ys]"
    by (auto simp: processChannel_def Let_def split: if_splits prod.splits)
  show ?thesis
  proof (cases "0 \<le> g \<and> g < int (length buffer)")
    case True
    with g0 assms(2) have "nat g \<noteq> nat ?g0" by linarith
    then show ?thesis using True buf by (simp add: getWritePointer_def)
  next
    case False
    then show ?thesis using buf by (auto simp: getWritePointer_def)
  qed
qed

lemma processChannels_frame:
  "processChannels L H sid n cs (buffer, b) = Some (buffer', b') \<Longrightarrow>
   g \<notin> getGlobalChannelIndex H sid ` set cs \<Longrightarrow>
   getWritePointer buffer' g = getWritePointer buffer g"
proof (induction cs arbitrary: buffer b)
  case Nil
  then show ?case by simp
next
  case (Cons c cs)
  from Cons.prems(1) obtain buffer1 b1
    where one: "processChannel L H sid n (buffer, b) c = Some (buffer1, b1)"
      and rest: "processChannels L H sid n cs (buffer1, b1) = Some (buffer', b')"
    by (auto split: option.splits)
  from Cons.prems(2) have "g \<noteq> getGlobalChannelIndex H sid c"
    and "g \<notin> getGlobalChannelIndex H sid ` set cs" by auto
  then show ?case
    using Cons.IH [OF rest] processChannel_frame [OF one] by simp
qed

lemma process_loop_frame:
  "process_loop L H streams (buffer, m) = Some (buffer', m') \<Longrightarrow>
   (\<forall>st \<in> set streams. enable_stream st \<longrightarrow>
       g \<notin> getGlobalChannelIndex H (streamId st) ` set (Channels st)) \<Longrightarrow>
   getWritePointer buffer' g = getWritePointer buffer g"
proof (induction streams arbitrary: buffer m)
  case Nil
  then show ?case by simp
next
  case (Cons stream rest)
  show ?case
  proof (cases "enable_stream stream")
    case False
    with Cons.prems(1) have "process_loop L H rest (buffer, m) = Some (buffer', m')" by simp
    then show ?thesis using Cons.IH Cons.prems(2) by simp
  next
    case True
    with Cons.prems(1) obtain b buffer1 b1
      where "m (streamId stream) = Some b"
        and chans: "processChannels L H (streamId stream) (getNumSamplesInBlock H (streamId stream))
                (Channels stream) (buffer, b) = Some (buffer1, b1)"
        and rest: "process_loop L H rest (buffer1, m(streamId stream \<mapsto> b1)) = Some (buffer', m')"
      by (auto split: option.splits)
    from True Cons.prems(2)
    have "g \<notin> getGlobalChannelIndex H (streamId stream) ` set (Channels stream)" by simp
    then have "getWritePointer buffer1 g = getWritePointer buffer g"
      by (rule processChannels_frame [OF chans])
    moreover have "getWritePointer buffer' g = getWritePointer buffer1 g"
      using Cons.IH [OF rest] Cons.prems(2) by simp
    ultimately show ?thesis by simp
  qed
qed

lemma distinct_concat_map_each:
  "distinct (concat (map f xs)) \<Longrightarrow> a \<in> set xs \<Longrightarrow> distinct (f a)"
  by (induction xs) auto

lemma distinct_concat_map_disjoint:
  "distinct (concat (map f xs)) \<Longrightarrow> a \<in> set xs \<Longrightarrow> b \<in> set xs \<Longrightarrow> a \<noteq> b \<Longrightarrow>
   set (f a) \<inter> set (f b) = {}"
  by (induction xs) auto

lemma streamChannels_mem:
  assumes "0 \<le> c" and "c < channelCount st"
  shows "getGlobalChannelIndex H (streamId st) c \<in> set (streamChannels H st)"
proof -
  have "nat c \<in> set [0 ..< nat (channelCount st)]" using assms by simp
  then have "getGlobalChannelIndex H (streamId st) (int (nat c)) \<in> set (streamChannels H st)"
    unfolding streamChannels_def set_map by (rule imageI)
  then show ?thesis using assms(1) by simp
qed

lemma streamChannels_inj:
  assumes "distinct (streamChannels H st)"
    and "0 \<le> c" and "c < channelCount st" and "0 \<le> c'" and "c' < channelCount st"
    and "getGlobalChannelIndex H (streamId st) c = getGlobalChannelIndex H (streamId st) c'"
  shows "c = c'"
proof -
  let ?f = "\<lambda>k. getGlobalChannelIndex H (streamId st) (int k)"
  have "inj_on ?f (set [0 ..< nat (channelCount st)])"
    using assms(1) by (simp add: streamChannels_def distinct_map)
  moreover have "?f (nat c) = ?f (nat c')" using assms(2,4,6) by simp
  moreover have "nat c \<in> set [0 ..< nat (channelCount st)]" using assms(2,3) by simp
  moreover have "nat c' \<in> set [0 ..< nat (channelCount st)]" using assms(4,5) by simp
  ultimately have "nat c = nat c'" by (rule inj_onD)
  then show ?thesis using assms(2,4) by simp
qed

text \<open>A buffer channel of one stream is no selected channel of another stream.\<close>

lemma not_selected_elsewhere:
  assumes ok: "channelMapOk H streams" and sel: "list_all selectionOk streams"
    and st: "st \<in> set streams" and c: "0 \<le> c" "c < channelCount st"
    and st': "st' \<in> set streams" and ne: "st' \<noteq> st"
  shows "getGlobalChannelIndex H (streamId st) c
           \<notin> getGlobalChannelIndex H (streamId st') ` set (Channels st')"
proof
  assume "getGlobalChannelIndex H (streamId st) c
            \<in> getGlobalChannelIndex H (streamId st') ` set (Channels st')"
  then obtain c' where c': "c' \<in> set (Channels st')"
    and eq: "getGlobalChannelIndex H (streamId st) c = getGlobalChannelIndex H (streamId st') c'"
    by auto
  from sel st' c' have "0 \<le> c'" "c' < channelCount st'"
    by (auto simp: list_all_iff selectionOk_def)
  then have "getGlobalChannelIndex H (streamId st') c' \<in> set (streamChannels H st')"
    by (rule streamChannels_mem)
  moreover have "getGlobalChannelIndex H (streamId st) c \<in> set (streamChannels H st)"
    using c by (rule streamChannels_mem)
  moreover have "set (streamChannels H st') \<inter> set (streamChannels H st) = {}"
    using ok st' st ne unfolding channelMapOk_def by (rule distinct_concat_map_disjoint)
  ultimately show False using eq by auto
qed

text \<open>The block of the two example streams, run through the delay filter.\<close>

lemma block_run:
  "\<exists>P'. process delayDsp blockHost block twoStreams = Some ([[0, 1, 3], [4, 5, 6], [7, 8, 9]], P')"
  by (simp add: process_def twoStreams_def streamA_def streamB_def processChannel_def
      getWritePointer_def blockHost_def block_def tunedBank_def delayDsp_def numeral_eq_Suc)

lemma block_channelMapOk: "channelMapOk blockHost (dataStreams twoStreams)"
  by (simp add: channelMapOk_def streamChannels_def twoStreams_def streamA_def streamB_def
      blockHost_def numeral_eq_Suc)

lemma block_selectionOk: "list_all selectionOk (dataStreams twoStreams)"
  by (simp add: selectionOk_def twoStreams_def streamA_def streamB_def)

text \<open>
  Claim C6. \<^verbatim>\<open>process\<close> does not filter a stream whose enabled flag is false: every buffer
  channel of such a stream holds the same samples after the call as before. The host's
  channel map is taken to be well formed (no buffer channel belongs to two channels) and
  the selections to name channels of their own stream.
\<close>

theorem disabled_stream_untouched:
  assumes "process L H buffer P = Some (buffer', P')"
    and "channelMapOk H (dataStreams P)" and "list_all selectionOk (dataStreams P)"
    and "st \<in> set (dataStreams P)" and "\<not> enable_stream st"
    and "0 \<le> c" and "c < channelCount st"
  shows "getWritePointer buffer' (getGlobalChannelIndex H (streamId st) c)
           = getWritePointer buffer (getGlobalChannelIndex H (streamId st) c)"
proof -
  from assms(1) obtain m' where
    loop: "process_loop L H (dataStreams P) (buffer, settings P) = Some (buffer', m')"
    by (auto simp: process_def split: option.splits)
  have "\<forall>st' \<in> set (dataStreams P). enable_stream st' \<longrightarrow>
       getGlobalChannelIndex H (streamId st) c
         \<notin> getGlobalChannelIndex H (streamId st') ` set (Channels st')"
  proof (intro ballI impI)
    fix st' assume st': "st' \<in> set (dataStreams P)" and en: "enable_stream st'"
    from en assms(5) have "st' \<noteq> st" by auto
    with assms(2,3,4,6,7) st' show "getGlobalChannelIndex H (streamId st) c
         \<notin> getGlobalChannelIndex H (streamId st') ` set (Channels st')"
      by (intro not_selected_elsewhere)
  qed
  with loop show ?thesis by (rule process_loop_frame)
qed

theorem disabled_stream_untouched_witness:
  "(\<exists>P'. process delayDsp blockHost block twoStreams = Some ([[0, 1, 3], [4, 5, 6], [7, 8, 9]], P')) \<and>
   channelMapOk blockHost (dataStreams twoStreams) \<and>
   list_all selectionOk (dataStreams twoStreams) \<and>
   streamB \<in> set (dataStreams twoStreams) \<and> \<not> enable_stream streamB \<and>
   (0::int) < channelCount streamB \<and>
   getGlobalChannelIndex blockHost (streamId streamB) 0 = 2 \<and>
   getWritePointer [[0, 1, 3], [4, 5, 6], [7, 8, 9]] 2 = getWritePointer block 2"
proof -
  from block_run obtain P' where
    h1: "process delayDsp blockHost block twoStreams = Some ([[0, 1, 3], [4, 5, 6], [7, 8, 9]], P')" ..
  have h4: "streamB \<in> set (dataStreams twoStreams)" by (simp add: twoStreams_def)
  have h5: "\<not> enable_stream streamB" by (simp add: streamB_def)
  have h6: "(0::int) \<le> 0" by simp
  have h7: "(0::int) < channelCount streamB" by (simp add: streamB_def)
  have g: "getGlobalChannelIndex blockHost (streamId streamB) 0 = 2"
    by (simp add: blockHost_def streamB_def)
  show ?thesis
    using h1 h4 h5 h7 g block_channelMapOk block_selectionOk
      disabled_stream_untouched [OF h1 block_channelMapOk block_selectionOk h4 h5 h6 h7]
    by auto
qed

text \<open>
  Claim C7. For an enabled stream, \<^verbatim>\<open>process\<close> writes to the buffer channels of the selected
  local indices only: a channel of the stream whose local index is not in the selection
  holds the same samples after the call as before, under the same assumptions on the host's
  channel map and the selections.
\<close>

theorem unselected_channel_untouched:
  assumes "process L H buffer P = Some (buffer', P')"
    and "channelMapOk H (dataStreams P)" and "list_all selectionOk (dataStreams P)"
    and "st \<in> set (dataStreams P)" and "enable_stream st"
    and "0 \<le> c" and "c < channelCount st" and "c \<notin> set (Channels st)"
  shows "getWritePointer buffer' (getGlobalChannelIndex H (streamId st) c)
           = getWritePointer buffer (getGlobalChannelIndex H (streamId st) c)"
proof -
  from assms(1) obtain m' where
    loop: "process_loop L H (dataStreams P) (buffer, settings P) = Some (buffer', m')"
    by (auto simp: process_def split: option.splits)
  have "\<forall>st' \<in> set (dataStreams P). enable_stream st' \<longrightarrow>
       getGlobalChannelIndex H (streamId st) c
         \<notin> getGlobalChannelIndex H (streamId st') ` set (Channels st')"
  proof (intro ballI impI)
    fix st' assume st': "st' \<in> set (dataStreams P)" and en: "enable_stream st'"
    show "getGlobalChannelIndex H (streamId st) c
         \<notin> getGlobalChannelIndex H (streamId st') ` set (Channels st')"
    proof (cases "st' = st")
      case False
      with assms(2,3,4,6,7) st' show ?thesis by (intro not_selected_elsewhere)
    next
      case True
      have d: "distinct (streamChannels H st)"
        using assms(2,4) unfolding channelMapOk_def by (rule distinct_concat_map_each)
      show ?thesis
      proof
        assume "getGlobalChannelIndex H (streamId st) c
            \<in> getGlobalChannelIndex H (streamId st') ` set (Channels st')"
        then obtain c' where c': "c' \<in> set (Channels st)"
          and eq: "getGlobalChannelIndex H (streamId st) c = getGlobalChannelIndex H (streamId st) c'"
          using True by auto
        from assms(3,4) c' have "0 \<le> c'" "c' < channelCount st"
          by (auto simp: list_all_iff selectionOk_def)
        with d assms(6,7) eq have "c = c'" by (intro streamChannels_inj [of H st c c'])
        with c' assms(8) show False by simp
      qed
    qed
  qed
  with loop show ?thesis by (rule process_loop_frame)
qed

theorem unselected_channel_untouched_witness:
  "(\<exists>P'. process delayDsp blockHost block twoStreams = Some ([[0, 1, 3], [4, 5, 6], [7, 8, 9]], P')) \<and>
   channelMapOk blockHost (dataStreams twoStreams) \<and>
   list_all selectionOk (dataStreams twoStreams) \<and>
   streamA \<in> set (dataStreams twoStreams) \<and> enable_stream streamA \<and>
   (1::int) < channelCount streamA \<and> 1 \<notin> set (Channels streamA) \<and>
   getGlobalChannelIndex blockHost (streamId streamA) 1 = 1 \<and>
   getWritePointer [[0, 1, 3], [4, 5, 6], [7, 8, 9]] 1 = getWritePointer block 1"
proof -
  from block_run obtain P' where
    h1: "process delayDsp blockHost block twoStreams = Some ([[0, 1, 3], [4, 5, 6], [7, 8, 9]], P')" ..
  have h4: "streamA \<in> set (dataStreams twoStreams)" by (simp add: twoStreams_def)
  have h5: "enable_stream streamA" by (simp add: streamA_def)
  have h6: "(0::int) \<le> 1" by simp
  have h7: "(1::int) < channelCount streamA" by (simp add: streamA_def)
  have h8: "1 \<notin> set (Channels streamA)" by (simp add: streamA_def)
  have g: "getGlobalChannelIndex blockHost (streamId streamA) 1 = 1"
    by (simp add: blockHost_def streamA_def)
  show ?thesis
    using h1 h4 h5 h7 h8 g block_channelMapOk block_selectionOk
      unselected_channel_untouched [OF h1 block_channelMapOk block_selectionOk h4 h5 h6 h7 h8]
    by auto
qed

end
